theory Spec2Isabelle
  imports Complex_Main
begin

section \<open>Data model (sync_manager.py, conflict_resolver.py)\<close>

text \<open>
  \<^verbatim>\<open>SyncOperation\<close> is a mutable dataclass: the apply loop writes \<^verbatim>\<open>version\<close> into
  the object it dequeued and the insert strategy writes \<^verbatim>\<open>position\<close> into the objects
  of the conflict. The same object is shared by the apply queue, the pending lists, the
  recent-operations windows and the subscriber channels, so operations live in an explicit
  store and everything else holds references into it. A reference is an index into the
  store; a new object is appended at the end. Timestamps are Python floats of which only
  the order is used; they are modelled as reals.
\<close>

record SyncOperation =
  operation_type :: string
  path :: string
  content :: "string option"
  position :: "int option"
  user_id :: string
  timestamp :: real
  version :: int

type_synonym ref = nat
type_synonym heap = "SyncOperation list"

definition alloc :: "heap \<Rightarrow> SyncOperation \<Rightarrow> ref \<times> heap" where
  "alloc h v = (length h, h @ [v])"

datatype error =
    AttributeError | TypeError | IndexError | KeyError | ValueError
  | PermissionError | StopIteration | ExternalError string

record Conflict =
  operations :: "ref list"
  conflict_users :: "string list"
  conflict_timestamp :: real
  resolved :: bool
  resolution :: "ref option"

datatype metric = Metric string | MetricError string error

text \<open>
  Modelled from the spec: \<^verbatim>\<open>MetricsTracker.record\<close> and \<^verbatim>\<open>MetricsTracker.record_error\<close>
  are called throughout the collaboration package but monitoring/metrics.py defines
  neither. The spec has errors "recorded in metrics" and "logged", so both are modelled as
  appending an entry to the tracker's list of entries and returning normally.
\<close>

definition record_metric :: "string \<Rightarrow> metric list \<Rightarrow> metric list" where
  "record_metric name mlog = mlog @ [Metric name]"

definition record_error :: "string \<Rightarrow> error \<Rightarrow> metric list \<Rightarrow> metric list" where
  "record_error name e mlog = mlog @ [MetricError name e]"

record ConflictResolver =
  conflicts :: "string \<rightharpoonup> Conflict list"
  resolver_metrics :: "metric list"

text \<open>
  What the code takes from outside during one call: the clock, the file system, the two
  \<^verbatim>\<open>difflib\<close>/\<^verbatim>\<open>str\<close> library calls used by the line merge, and the outcome of the
  storage collaborator's \<^verbatim>\<open>record_operation\<close> (the exception it raises, if any) and
  \<^verbatim>\<open>record_conflict\<close> (the exception, or the id of the stored conflict).
\<close>

record env =
  now :: real
  path_exists :: "string \<Rightarrow> bool"
  splitlines :: "string \<Rightarrow> string list"
  differ_compare :: "string list \<Rightarrow> string list \<Rightarrow> string list"
  record_operation_error :: "error option"
  record_conflict_result :: "error + nat"

section \<open>Conflict detection (conflict_resolver.py)\<close>

text \<open>
  Modelled from the spec: \<^verbatim>\<open>ConflictResolver._modifications_overlap\<close> is called by
  \<^verbatim>\<open>_operations_conflict\<close> but is defined nowhere under src/. The spec says of it that two
  modifies are "treated as conflicting whenever they target the same path within the recent
  window" and that the overlap check "always conflicts two modifies on the same path".
\<close>

definition modifications_overlap :: "SyncOperation \<Rightarrow> SyncOperation \<Rightarrow> bool" where
  "modifications_overlap op1 op2 = True"

definition operations_conflict :: "SyncOperation \<Rightarrow> SyncOperation \<Rightarrow> error + bool" where
  "operations_conflict op1 op2 =
     (if path op1 \<noteq> path op2 then Inr False
      else if user_id op1 = user_id op2 then Inr False
      else if operation_type op1 = ''modify'' \<and> operation_type op2 = ''modify''
        then Inr (modifications_overlap op1 op2)
      else if operation_type op1 = ''delete'' \<or> operation_type op2 = ''delete''
        then Inr True
      else if operation_type op1 = ''insert'' \<and> operation_type op2 = ''insert''
        then (case position op1 of
                None \<Rightarrow> Inl TypeError
              | Some p1 \<Rightarrow> (case position op2 of
                             None \<Rightarrow> Inl TypeError
                           | Some p2 \<Rightarrow> Inr (\<bar>p1 - p2\<bar> < 2)))
      else Inr False)"

text \<open>The \<^verbatim>\<open>for recent in recent_operations\<close> loop of \<^verbatim>\<open>check_conflict\<close>; the first
  pairwise test that raises ends it.\<close>

fun collect_conflicts :: "heap \<Rightarrow> ref \<Rightarrow> ref list \<Rightarrow> error + ref list" where
  "collect_conflicts h operation [] = Inr []"
| "collect_conflicts h operation (recent # rest) =
     (case operations_conflict (h ! operation) (h ! recent) of
        Inl e \<Rightarrow> Inl e
      | Inr b \<Rightarrow> (case collect_conflicts h operation rest of
                    Inl e \<Rightarrow> Inl e
                  | Inr cs \<Rightarrow> Inr (if b then recent # cs else cs)))"

text \<open>The body of the \<^verbatim>\<open>try\<close> block of \<^verbatim>\<open>check_conflict\<close>. Python's
  \<^verbatim>\<open>list(set(...))\<close> has no specified order; the model keeps the users as a list without
  duplicates, in one of the possible orders.\<close>

definition check_conflict_try ::
  "env \<Rightarrow> heap \<Rightarrow> ConflictResolver \<Rightarrow> ref \<Rightarrow> ref list
     \<Rightarrow> error + (Conflict option \<times> ConflictResolver)" where
  "check_conflict_try ev h rs operation recent_operations =
     (case collect_conflicts h operation recent_operations of
        Inl e \<Rightarrow> Inl e
      | Inr cs \<Rightarrow>
          if cs \<noteq> [] then
            let conflict = \<lparr> operations = operation # cs,
                             conflict_users = remdups (map (\<lambda>r. user_id (h ! r)) (cs @ [operation])),
                             conflict_timestamp = now ev,
                             resolved = False,
                             resolution = None \<rparr>;
                p = path (h ! operation);
                existing = (case conflicts rs p of None \<Rightarrow> [] | Some l \<Rightarrow> l)
            in Inr (Some conflict, rs\<lparr>conflicts := (conflicts rs)(p \<mapsto> existing @ [conflict])\<rparr>)
          else Inr (None, rs))"

definition check_conflict ::
  "env \<Rightarrow> heap \<Rightarrow> ConflictResolver \<Rightarrow> ref \<Rightarrow> ref list \<Rightarrow> Conflict option \<times> ConflictResolver" where
  "check_conflict ev h rs operation recent_operations =
     (case check_conflict_try ev h rs operation recent_operations of
        Inr res \<Rightarrow> res
      | Inl e \<Rightarrow>
          (None, rs\<lparr>resolver_metrics :=
                      record_error ''conflict_check_error'' e (resolver_metrics rs)\<rparr>))"

section \<open>Resolution strategies (conflict_resolver.py)\<close>

text \<open>\<^verbatim>\<open>_merge_changes\<close>: a \<^verbatim>\<open>None\<close> base or change raises inside the \<^verbatim>\<open>try\<close> and the
  function returns \<^verbatim>\<open>None\<close>; otherwise each change is merged into the running result by
  keeping the lines of the comparison marked unchanged or added.\<close>

definition keep_lines :: "string list \<Rightarrow> string list" where
  "keep_lines diff =
     map (drop 2) (filter (\<lambda>l. take 2 l = ''  '' \<or> take 2 l = ''+ '') diff)"

definition merge_changes :: "env \<Rightarrow> string option \<Rightarrow> string option list \<Rightarrow> string option" where
  "merge_changes ev base changes =
     (case base of
        None \<Rightarrow> None
      | Some b \<Rightarrow>
          (case those changes of
             None \<Rightarrow> None
           | Some cs \<Rightarrow>
               Some (concat (foldl (\<lambda>current change. keep_lines (differ_compare ev current change))
                              (splitlines ev b) (map (splitlines ev) cs)))))"

text \<open>The three strategies take the conflict's operations and return the resolution (a
  reference, \<^verbatim>\<open>None\<close> for failure) with the store and the metrics entries as they leave them.
  \<^verbatim>\<open>sorted\<close> is stable, as \<open>sort_key\<close> is.\<close>

definition resolve_modify_conflict ::
  "env \<Rightarrow> ref list \<Rightarrow> heap \<Rightarrow> metric list \<Rightarrow> ref option \<times> heap \<times> metric list" where
  "resolve_modify_conflict ev ops h mlog =
     (case sort_key (\<lambda>r. timestamp (h ! r)) ops of
        [] \<Rightarrow> (None, h, record_error ''modify_resolution_error'' IndexError mlog)
      | b # rest \<Rightarrow>
          (case merge_changes ev (content (h ! b)) (map (\<lambda>r. content (h ! r)) rest) of
             None \<Rightarrow> (None, h, mlog)
           | Some merged_content \<Rightarrow>
               if merged_content \<noteq> [] then
                 let (r, h') = alloc h \<lparr> operation_type = ''modify'',
                                          path = path (h ! hd ops),
                                          content = Some merged_content,
                                          position = None,
                                          user_id = ''system'',
                                          timestamp = now ev,
                                          version = - 1 \<rparr>
                 in (Some r, h', mlog)
               else (None, h, mlog)))"

text \<open>\<^verbatim>\<open>next(op for op in operations if op.operation_type == 'delete')\<close>; with no
  delete in the list the generator is exhausted and the call raises.\<close>

definition resolve_delete_conflict :: "ref list \<Rightarrow> heap \<Rightarrow> error + ref" where
  "resolve_delete_conflict ops h =
     (case filter (\<lambda>r. operation_type (h ! r) = ''delete'') ops of
        [] \<Rightarrow> Inl StopIteration
      | r # _ \<Rightarrow> Inr r)"

text \<open>The \<^verbatim>\<open>for op in sorted_ops\<close> loop of \<^verbatim>\<open>_resolve_insert_conflict\<close>, with the cursor
  \<^verbatim>\<open>current_pos\<close> and the accumulated \<^verbatim>\<open>merged_content\<close>. The assignment
  \<^verbatim>\<open>op.position = current_pos + 1\<close> writes into the store; a \<^verbatim>\<open>None\<close> content raises at
  the concatenation, after the write.\<close>

fun adjust_positions :: "ref list \<Rightarrow> int \<Rightarrow> string \<Rightarrow> heap \<Rightarrow> (error + string) \<times> heap" where
  "adjust_positions [] current_pos merged_content h = (Inr merged_content, h)"
| "adjust_positions (r # rest) current_pos merged_content h =
     (case position (h ! r) of
        None \<Rightarrow> (Inl TypeError, h)
      | Some p \<Rightarrow>
          let h1 = (if p \<le> current_pos
                    then h[r := (h ! r)\<lparr>position := Some (current_pos + 1)\<rparr>] else h);
              p1 = (if p \<le> current_pos then current_pos + 1 else p)
          in (case content (h1 ! r) of
                None \<Rightarrow> (Inl TypeError, h1)
              | Some c \<Rightarrow>
                  adjust_positions rest (p1 + int (length c)) (merged_content @ c) h1))"

definition position_key :: "heap \<Rightarrow> ref \<Rightarrow> int" where
  "position_key h r = (case position (h ! r) of None \<Rightarrow> 0 | Some p \<Rightarrow> p)"

text \<open>\<^verbatim>\<open>_resolve_insert_conflict\<close>. An empty list raises at \<^verbatim>\<open>sorted_ops[0]\<close>; a
  \<^verbatim>\<open>None\<close> position raises in \<^verbatim>\<open>sorted\<close> (two or more operations) or at the first
  comparison with the cursor (one operation), in both cases before any write.\<close>

definition resolve_insert_conflict ::
  "env \<Rightarrow> ref list \<Rightarrow> heap \<Rightarrow> metric list \<Rightarrow> ref option \<times> heap \<times> metric list" where
  "resolve_insert_conflict ev ops h mlog =
     (if ops = [] then (None, h, record_error ''insert_resolution_error'' IndexError mlog)
      else if list_ex (\<lambda>r. position (h ! r) = None) ops
        then (None, h, record_error ''insert_resolution_error'' TypeError mlog)
      else
        let sorted_ops = sort_key (position_key h) ops in
        (case adjust_positions sorted_ops (position_key h (hd sorted_ops)) [] h of
           (Inl e, h1) \<Rightarrow> (None, h1, record_error ''insert_resolution_error'' e mlog)
         | (Inr merged_content, h1) \<Rightarrow>
             let (r, h2) = alloc h1 \<lparr> operation_type = ''insert'',
                                       path = path (h1 ! hd ops),
                                       content = Some merged_content,
                                       position = position (h1 ! hd sorted_ops),
                                       user_id = ''system'',
                                       timestamp = now ev,
                                       version = - 1 \<rparr>
             in (Some r, h2, mlog)))"

text \<open>\<^verbatim>\<open>resolve_conflict\<close> dispatches on the kind of the first operation. It returns
  the conflict as well, since it sets \<^verbatim>\<open>resolved\<close> and \<^verbatim>\<open>resolution\<close> on it.\<close>

definition resolve_conflict ::
  "env \<Rightarrow> Conflict \<Rightarrow> heap \<Rightarrow> metric list \<Rightarrow> ref option \<times> Conflict \<times> heap \<times> metric list" where
  "resolve_conflict ev conflict h mlog =
     (case operations conflict of
        [] \<Rightarrow> (None, conflict, h, record_error ''conflict_resolution_error'' IndexError mlog)
      | [r] \<Rightarrow> (Some r, conflict, h, mlog)
      | primary # _ # _ \<Rightarrow>
          let kind = operation_type (h ! primary);
              finish = (\<lambda>res h' mlog'.
                        (case res of
                           None \<Rightarrow> (None, conflict, h', mlog')
                         | Some r \<Rightarrow> (Some r, conflict\<lparr>resolved := True, resolution := Some r\<rparr>,
                                       h', mlog')))
          in if kind = ''modify'' then
               (case resolve_modify_conflict ev (operations conflict) h mlog of
                  (res, h', mlog') \<Rightarrow> finish res h' mlog')
             else if kind = ''delete'' then
               (case resolve_delete_conflict (operations conflict) h of
                  Inl e \<Rightarrow> (None, conflict, h, record_error ''conflict_resolution_error'' e mlog)
                | Inr r \<Rightarrow> finish (Some r) h mlog)
             else if kind = ''insert'' then
               (case resolve_insert_conflict ev (operations conflict) h mlog of
                  (res, h', mlog') \<Rightarrow> finish res h' mlog')
             else (None, conflict, h, mlog))"

section \<open>Conflict messages (conflict_messages.py)\<close>

text \<open>Of the message the coordinator broadcasts, the title, the severity, the keys of the
  offered actions and the conflict type are modelled; the description text and the metadata
  dictionary repeat data of the conflict.\<close>

record ConflictMessage =
  title :: string
  severity :: string
  actions :: "string list"
  conflict_type :: string

definition create_generic_message :: ConflictMessage where
  "create_generic_message =
     \<lparr> title = ''Conflict Detected'', severity = ''info'',
       actions = [''retry'', ''cancel'', ''manual_resolve''], conflict_type = ''generic'' \<rparr>"

definition generate_message :: "heap \<Rightarrow> Conflict \<Rightarrow> ConflictMessage" where
  "generate_message h conflict =
     (if length (operations conflict) < 2 then create_generic_message
      else let kind = operation_type (h ! hd (operations conflict)) in
        if kind = ''modify'' then
          \<lparr> title = ''Conflicting Changes Detected'', severity = ''warning'',
            actions = [''accept_merge'', ''keep_mine'', ''keep_theirs'', ''manual_resolve''],
            conflict_type = ''modify'' \<rparr>
        else if kind = ''delete'' then
          \<lparr> title = ''File Deletion Conflict'', severity = ''error'',
            actions = [''accept_delete'', ''reject_delete'', ''manual_resolve''],
            conflict_type = ''delete'' \<rparr>
        else if kind = ''insert'' then
          \<lparr> title = ''Conflicting Insertions'', severity = ''warning'',
            actions = [''merge_sequential'', ''keep_mine'', ''keep_theirs'', ''manual_resolve''],
            conflict_type = ''insert'' \<rparr>
        else create_generic_message)"

section \<open>The sync coordinator (sync_manager.py)\<close>

text \<open>
  What a subscriber channel (an unbounded \<^verbatim>\<open>asyncio.Queue\<close>) can hold: a reference to
  an applied operation, or one of the event dictionaries. Channels are objects too: they
  live in a store of their own and \<^verbatim>\<open>subscribers\<close> holds their indices. A Python set of
  channels or of users is a list without duplicates here; the order in which the code
  iterates over it does not matter, since each channel gets one \<^verbatim>\<open>put\<close>.
\<close>

datatype message =
    OperationMsg ref
  | UserEvent string string real
  | LockEvent string string string real
  | ConflictEvent string "string list" real ConflictMessage nat

type_synonym channel = nat

text \<open>\<^verbatim>\<open>SyncManager\<close> with its \<^verbatim>\<open>SyncState\<close> flattened into one record:
  \<open>state_version\<close> is \<^verbatim>\<open>state.version\<close>, \<open>state_operations\<close> is \<^verbatim>\<open>state.operations\<close>,
  \<open>ops\<close> is the store of operation objects, \<open>channels\<close> the store of subscriber queues.\<close>

record SyncManager =
  state_version :: int
  state_operations :: "ref list"
  users :: "string list"
  locked_files :: "string \<rightharpoonup> string"
  recent_operations :: "string \<rightharpoonup> ref list"
  metrics :: "metric list"
  operation_queue :: "ref list"
  subscribers :: "string \<rightharpoonup> channel list"
  conflict_resolver :: ConflictResolver
  recent_ops_limit :: nat
  pending_operations :: "string \<rightharpoonup> ref list"
  ops :: heap
  channels :: "message list list"

definition init :: SyncManager where
  "init = \<lparr> state_version = 0, state_operations = [], users = [],
            locked_files = Map.empty, recent_operations = Map.empty, metrics = [],
            operation_queue = [], subscribers = Map.empty,
            conflict_resolver = \<lparr> conflicts = Map.empty, resolver_metrics = [] \<rparr>,
            recent_ops_limit = 10, pending_operations = Map.empty,
            ops = [], channels = [] \<rparr>"

definition put :: "message \<Rightarrow> channel \<Rightarrow> message list list \<Rightarrow> message list list" where
  "put m q chs = chs[q := chs ! q @ [m]]"

definition put_all :: "channel list \<Rightarrow> message \<Rightarrow> message list list \<Rightarrow> message list list" where
  "put_all qs m chs = fold (put m) qs chs"

text \<open>\<^verbatim>\<open>for user in ...: if user in self.subscribers: for queue in
  self.subscribers[user]: await queue.put(event)\<close>, the loop shared by the user, commit and
  conflict broadcasts.\<close>

definition put_users ::
  "(string \<rightharpoonup> channel list) \<Rightarrow> string list \<Rightarrow> message \<Rightarrow> message list list \<Rightarrow> message list list" where
  "put_users subs us m chs =
     fold (\<lambda>u c. case subs u of None \<Rightarrow> c | Some qs \<Rightarrow> put_all qs m c) us chs"

definition broadcast_user_event :: "env \<Rightarrow> string \<Rightarrow> string \<Rightarrow> SyncManager \<Rightarrow> SyncManager" where
  "broadcast_user_event ev event_type user st =
     st\<lparr>channels := put_users (subscribers st) (users st)
                       (UserEvent (''user_'' @ event_type) user (now ev)) (channels st)\<rparr>"

definition broadcast_lock_event ::
  "env \<Rightarrow> string \<Rightarrow> string \<Rightarrow> string \<Rightarrow> SyncManager \<Rightarrow> SyncManager" where
  "broadcast_lock_event ev event_type p user st =
     (case subscribers st p of
        None \<Rightarrow> st
      | Some qs \<Rightarrow>
          st\<lparr>channels := put_all qs (LockEvent (''lock_'' @ event_type) p user (now ev))
                            (channels st)\<rparr>)"

definition broadcast_operation :: "ref \<Rightarrow> SyncManager \<Rightarrow> SyncManager" where
  "broadcast_operation operation st =
     (case subscribers st (path (ops st ! operation)) of
        None \<Rightarrow> st
      | Some qs \<Rightarrow> st\<lparr>channels := put_all qs (OperationMsg operation) (channels st)\<rparr>)"

text \<open>\<^verbatim>\<open>connect_user\<close>. \<^verbatim>\<open>create_branch_for_user\<close> and \<^verbatim>\<open>update_user_activity\<close> catch
  every exception of their own and touch nothing of the coordinator.\<close>

definition connect_user :: "env \<Rightarrow> string \<Rightarrow> SyncManager \<Rightarrow> SyncManager" where
  "connect_user ev user st =
     broadcast_user_event ev ''connected'' user
       (st\<lparr>users := (if user \<in> set (users st) then users st else users st @ [user]),
           subscribers := (subscribers st)(user \<mapsto> []),
           pending_operations := (pending_operations st)(user \<mapsto> [])\<rparr>)"

definition subscribe :: "string \<Rightarrow> string \<Rightarrow> SyncManager \<Rightarrow> channel \<times> SyncManager" where
  "subscribe user p st =
     (let queue = length (channels st);
          existing = (case subscribers st p of None \<Rightarrow> [] | Some qs \<Rightarrow> qs)
      in (queue, st\<lparr>channels := channels st @ [[]],
                    subscribers := (subscribers st)(p \<mapsto> existing @ [queue])\<rparr>))"

text \<open>\<^verbatim>\<open>unsubscribe\<close>: \<^verbatim>\<open>set.remove\<close> raises \<^verbatim>\<open>KeyError\<close> on an element that is not in
  the set.\<close>

definition unsubscribe :: "string \<Rightarrow> channel \<Rightarrow> SyncManager \<Rightarrow> (error + unit) \<times> SyncManager" where
  "unsubscribe p queue st =
     (case subscribers st p of
        None \<Rightarrow> (Inr (), st)
      | Some qs \<Rightarrow>
          if queue \<in> set qs
          then (Inr (), st\<lparr>subscribers := (subscribers st)(p \<mapsto> removeAll queue qs)\<rparr>)
          else (Inl KeyError, st))"

definition acquire_lock :: "env \<Rightarrow> string \<Rightarrow> string \<Rightarrow> SyncManager \<Rightarrow> bool \<times> SyncManager" where
  "acquire_lock ev p user st =
     (if locked_files st p \<noteq> None then (False, st)
      else (True, broadcast_lock_event ev ''acquired'' p user
                    (st\<lparr>locked_files := (locked_files st)(p \<mapsto> user)\<rparr>)))"

definition release_lock :: "env \<Rightarrow> string \<Rightarrow> string \<Rightarrow> SyncManager \<Rightarrow> bool \<times> SyncManager" where
  "release_lock ev p user st =
     (if locked_files st p \<noteq> Some user then (False, st)
      else (True, broadcast_lock_event ev ''released'' p user
                    (st\<lparr>locked_files := (locked_files st)(p := None)\<rparr>)))"

definition validate_operation :: "env \<Rightarrow> SyncManager \<Rightarrow> SyncOperation \<Rightarrow> bool" where
  "validate_operation ev st operation =
     (if operation_type operation \<notin> {''insert'', ''delete'', ''modify''} then False
      else if \<not> path_exists ev (path operation) then False
      else if user_id operation \<notin> set (users st) then False
      else True)"

definition can_modify_file :: "SyncManager \<Rightarrow> string \<Rightarrow> string \<Rightarrow> bool" where
  "can_modify_file st p user =
     (case locked_files st p of None \<Rightarrow> True | Some holder \<Rightarrow> holder = user)"

text \<open>
  \<^verbatim>\<open>push_operation\<close> awaits the storage collaborator in two places: \<^verbatim>\<open>record_operation\<close>
  (its last step but one) and \<^verbatim>\<open>record_conflict\<close> (inside \<^verbatim>\<open>_broadcast_conflict\<close>). While
  such a call is pending the push is suspended and the event loop runs other tasks: the
  apply loop, other pushes. All other awaits of \<^verbatim>\<open>push_operation\<close> are on coroutines that
  never wait (conflict check and resolution, \<^verbatim>\<open>put\<close> on an unbounded queue). So a push is
  modelled in two steps: \<open>push_operation_begin\<close> runs it up to the collaborator call, and
  \<open>push_operation_resume\<close> runs the rest on the state the coordinator has when the
  collaborator answers. What a suspended push keeps is its local variables.
\<close>

datatype suspended =
    AwaitRecordOperation ref
  | AwaitRecordConflict Conflict ConflictMessage

datatype push_result = Raised error | Returned | Suspended suspended

text \<open>\<^verbatim>\<open>_broadcast_conflict\<close> up to \<^verbatim>\<open>await self.db_manager.record_conflict(...)\<close>: the
  message is generated and the arguments of the call are evaluated.\<close>

definition broadcast_conflict_begin :: "Conflict \<Rightarrow> SyncManager \<Rightarrow> error + suspended" where
  "broadcast_conflict_begin conflict st =
     (case operations conflict of
        [] \<Rightarrow> Inl IndexError
      | first # _ \<Rightarrow> Inr (AwaitRecordConflict conflict (generate_message (ops st) conflict)))"

text \<open>\<^verbatim>\<open>_broadcast_conflict\<close> from the answer of \<^verbatim>\<open>record_conflict\<close> on: the exception is
  passed on, or the event is built and put on the channels of the conflict's users.\<close>

definition broadcast_conflict_resume ::
  "env \<Rightarrow> Conflict \<Rightarrow> ConflictMessage \<Rightarrow> SyncManager \<Rightarrow> (error + unit) \<times> SyncManager" where
  "broadcast_conflict_resume ev conflict message st =
     (case record_conflict_result ev of
        Inl e \<Rightarrow> (Inl e, st)
      | Inr conflict_id \<Rightarrow>
          (case operations conflict of
             [] \<Rightarrow> (Inl IndexError, st)
           | first # _ \<Rightarrow>
               (Inr (), st\<lparr>channels :=
                  put_users (subscribers st) (conflict_users conflict)
                    (ConflictEvent (path (ops st ! first)) (conflict_users conflict)
                       (conflict_timestamp conflict) message conflict_id)
                    (channels st)\<rparr>)))"

text \<open>\<^verbatim>\<open># Add to queue\<close> and \<^verbatim>\<open># Add to pending operations\<close>: the operation is put on the
  apply queue, then appended to its user's pending list (\<^verbatim>\<open>KeyError\<close> when the user has
  none).\<close>

definition enqueue_operation :: "ref \<Rightarrow> SyncManager \<Rightarrow> (error + unit) \<times> SyncManager" where
  "enqueue_operation operation st =
     (let st1 = st\<lparr>operation_queue := operation_queue st @ [operation]\<rparr>;
          user = user_id (ops st1 ! operation)
      in case pending_operations st1 user of
           None \<Rightarrow> (Inl KeyError, st1)
         | Some pending \<Rightarrow>
             (Inr (), st1\<lparr>pending_operations :=
                           (pending_operations st1)(user \<mapsto> pending @ [operation])\<rparr>))"

text \<open>The conflict that \<^verbatim>\<open>check_conflict\<close> returned is the object it appended to
  \<^verbatim>\<open>conflicts[path]\<close>, so what \<^verbatim>\<open>resolve_conflict\<close> sets on it shows in the table.\<close>

definition store_last :: "string \<Rightarrow> Conflict \<Rightarrow> ConflictResolver \<Rightarrow> ConflictResolver" where
  "store_last p conflict rs =
     (case conflicts rs p of
        None \<Rightarrow> rs
      | Some l \<Rightarrow> rs\<lparr>conflicts := (conflicts rs)(p \<mapsto> butlast l @ [conflict])\<rparr>)"

text \<open>The \<^verbatim>\<open>try\<close> block of \<^verbatim>\<open>push_operation\<close> up to its first pending collaborator call:
  validation, lock check, conflict check and resolution, and then either the conflict
  broadcast (no resolution) or the queue and the pending list (the pushed operation, or the
  resolution in its place). It ends with an exception or suspended.\<close>

definition push_operation_begin_try ::
  "env \<Rightarrow> ref \<Rightarrow> SyncManager \<Rightarrow> (error + suspended) \<times> SyncManager" where
  "push_operation_begin_try ev operation st =
     (let opv = ops st ! operation;
          enqueue = (\<lambda>r st'.
                       case enqueue_operation r st' of
                         (Inl e, st'') \<Rightarrow> (Inl e, st'')
                       | (Inr u, st'') \<Rightarrow> (Inr (AwaitRecordOperation r), st''))
      in
      if \<not> validate_operation ev st opv then (Inl ValueError, st)
      else if \<not> can_modify_file st (path opv) (user_id opv) then (Inl PermissionError, st)
      else
        let recent_ops = (case recent_operations st (path opv) of None \<Rightarrow> [] | Some l \<Rightarrow> l)
        in (case check_conflict ev (ops st) (conflict_resolver st) operation recent_ops of
              (None, rs1) \<Rightarrow> enqueue operation (st\<lparr>conflict_resolver := rs1\<rparr>)
            | (Some conflict, rs1) \<Rightarrow>
                (case resolve_conflict ev conflict (ops st) (resolver_metrics rs1) of
                   (res, conflict', h', mlog') \<Rightarrow>
                     let rs2 = store_last (path opv) conflict' (rs1\<lparr>resolver_metrics := mlog'\<rparr>);
                         st2 = st\<lparr>conflict_resolver := rs2, ops := h'\<rparr>
                     in (case res of
                           Some r \<Rightarrow> enqueue r st2
                         | None \<Rightarrow>
                             (case broadcast_conflict_begin conflict' st2 of
                                Inl e \<Rightarrow> (Inl e, st2)
                              | Inr sp \<Rightarrow> (Inr sp, st2))))))"

text \<open>An exception anywhere in the \<^verbatim>\<open>try\<close> block is recorded in the metrics and raised
  again.\<close>

definition push_operation_begin :: "env \<Rightarrow> ref \<Rightarrow> SyncManager \<Rightarrow> push_result \<times> SyncManager" where
  "push_operation_begin ev operation st =
     (case push_operation_begin_try ev operation st of
        (Inl e, st') \<Rightarrow>
          (Raised e, st'\<lparr>metrics := record_error ''sync_operation_error'' e (metrics st')\<rparr>)
      | (Inr sp, st') \<Rightarrow> (Suspended sp, st'))"

text \<open>The rest of a suspended push, on the state \<open>st\<close> in which the collaborator answers.
  After \<^verbatim>\<open>record_operation\<close>: its exception, or the metrics entry of a completed push. After
  \<^verbatim>\<open>record_conflict\<close>: the rest of the conflict broadcast and the \<^verbatim>\<open>return\<close>.\<close>

definition push_operation_resume ::
  "env \<Rightarrow> suspended \<Rightarrow> SyncManager \<Rightarrow> push_result \<times> SyncManager" where
  "push_operation_resume ev sp st =
     (case sp of
        AwaitRecordOperation operation \<Rightarrow>
          (case record_operation_error ev of
             Some e \<Rightarrow>
               (Raised e, st\<lparr>metrics := record_error ''sync_operation_error'' e (metrics st)\<rparr>)
           | None \<Rightarrow>
               (Returned, st\<lparr>metrics := record_metric ''sync_operation_pushed'' (metrics st)\<rparr>))
      | AwaitRecordConflict conflict message \<Rightarrow>
          (case broadcast_conflict_resume ev conflict message st of
             (Inl e, st') \<Rightarrow>
               (Raised e, st'\<lparr>metrics := record_error ''sync_operation_error'' e (metrics st')\<rparr>)
           | (Inr u, st') \<Rightarrow> (Returned, st')))"

text \<open>A push during which no other task runs: the collaborator answers at once, or nothing
  else is ready (the apply loop has not been started).\<close>

definition push_operation :: "env \<Rightarrow> ref \<Rightarrow> SyncManager \<Rightarrow> push_result \<times> SyncManager" where
  "push_operation ev operation st =
     (case push_operation_begin ev operation st of
        (Suspended sp, st') \<Rightarrow> push_operation_resume ev sp st'
      | (res, st') \<Rightarrow> (res, st'))"

subsection \<open>The apply loop\<close>

text \<open>\<^verbatim>\<open>_apply_operation\<close>: each of its three branches is \<^verbatim>\<open>pass\<close>.\<close>

definition apply_operation :: "ref \<Rightarrow> SyncManager \<Rightarrow> SyncManager" where
  "apply_operation operation st = st"

definition update_recent_operations :: "ref \<Rightarrow> SyncManager \<Rightarrow> SyncManager" where
  "update_recent_operations operation st =
     (let p = path (ops st ! operation);
          recent = (case recent_operations st p of None \<Rightarrow> [] | Some l \<Rightarrow> l) @ [operation]
      in st\<lparr>recent_operations := (recent_operations st)
               (p \<mapsto> (if length recent > recent_ops_limit st then tl recent else recent))\<rparr>)"

text \<open>One iteration of \<^verbatim>\<open>_process_operations\<close> on the operation it dequeued, in the
  order of the source: apply, update the window, broadcast (\<open>process_publish\<close>), then
  increment \<^verbatim>\<open>state.version\<close> and write it into the operation (\<open>assign_version\<close>), then
  record the metric.\<close>

definition process_publish :: "ref \<Rightarrow> SyncManager \<Rightarrow> SyncManager" where
  "process_publish operation st =
     broadcast_operation operation
       (update_recent_operations operation (apply_operation operation st))"

definition assign_version :: "ref \<Rightarrow> SyncManager \<Rightarrow> SyncManager" where
  "assign_version operation st =
     (let v = state_version st + 1
      in st\<lparr>state_version := v,
            ops := (ops st)[operation := (ops st ! operation)\<lparr>version := v\<rparr>]\<rparr>)"

definition process_one :: "ref \<Rightarrow> SyncManager \<Rightarrow> SyncManager" where
  "process_one operation st =
     (let st1 = assign_version operation (process_publish operation st)
      in st1\<lparr>metrics := record_metric ''sync_operation_processed'' (metrics st1)\<rparr>)"

text \<open>\<^verbatim>\<open>operation = await self.operation_queue.get()\<close> followed by the rest of the
  iteration; with an empty queue the loop waits.\<close>

definition process_step :: "SyncManager \<Rightarrow> (ref \<times> SyncManager) option" where
  "process_step st =
     (case operation_queue st of
        [] \<Rightarrow> None
      | operation # rest \<Rightarrow> Some (operation, process_one operation (st\<lparr>operation_queue := rest\<rparr>)))"

subsection \<open>Interleavings of callers and the apply loop\<close>

text \<open>What can happen to a running coordinator: a call of one of its public methods by some
  client, or one iteration of the apply loop. \<open>Push\<close> submits a newly created operation
  object and runs the push up to its pending collaborator call; \<open>Resume\<close> is the answer of
  the collaborator to a suspended push, which may come after any number of other actions
  (the model lets it come for any suspended push, also one that no \<open>Push\<close> has left behind,
  which only adds behaviours). Exceptions and return values go to the caller; the
  coordinator keeps the state.\<close>

datatype action =
    Connect string
  | Subscribe string string
  | Unsubscribe string channel
  | AcquireLock string string
  | ReleaseLock string string
  | Push SyncOperation
  | Resume suspended
  | Apply

fun step :: "env \<Rightarrow> action \<Rightarrow> SyncManager \<Rightarrow> SyncManager" where
  "step ev (Connect user) st = connect_user ev user st"
| "step ev (Subscribe user p) st = snd (subscribe user p st)"
| "step ev (Unsubscribe p queue) st = snd (unsubscribe p queue st)"
| "step ev (AcquireLock p user) st = snd (acquire_lock ev p user st)"
| "step ev (ReleaseLock p user) st = snd (release_lock ev p user st)"
| "step ev (Push operation) st =
     (case alloc (ops st) operation of
        (r, h) \<Rightarrow> snd (push_operation_begin ev r (st\<lparr>ops := h\<rparr>)))"
| "step ev (Resume sp) st = snd (push_operation_resume ev sp st)"
| "step ev Apply st = (case process_step st of None \<Rightarrow> st | Some (_, st') \<Rightarrow> st')"

text \<open>The versions the apply loop assigns, in the order in which it assigns them, along a
  sequence of actions.\<close>

fun assigned_versions :: "(env \<times> action) list \<Rightarrow> SyncManager \<Rightarrow> int list" where
  "assigned_versions [] st = []"
| "assigned_versions ((ev, a) # rest) st =
     (if a = Apply \<and> operation_queue st \<noteq> []
      then state_version (step ev a st) # assigned_versions rest (step ev a st)
      else assigned_versions rest (step ev a st))"

fun run :: "(env \<times> action) list \<Rightarrow> SyncManager \<Rightarrow> SyncManager" where
  "run [] st = st"
| "run ((ev, a) # rest) st = run rest (step ev a st)"

section \<open>Concrete inputs\<close>

text \<open>An environment in which every path exists and the storage collaborator answers, and
  the stores and coordinator states at which the properties below are evaluated.\<close>

definition example_env :: env where
  "example_env = \<lparr> now = 100, path_exists = (\<lambda>p. True), splitlines = (\<lambda>s. [s]),
                    differ_compare = (\<lambda>a b. map (\<lambda>l. ''+ '' @ l) b),
                    record_operation_error = None, record_conflict_result = Inr 0 \<rparr>"

definition empty_resolver :: ConflictResolver where
  "empty_resolver = \<lparr> conflicts = Map.empty, resolver_metrics = [] \<rparr>"

definition modify_heap :: heap where
  "modify_heap =
     [\<lparr> operation_type = ''modify'', path = ''f'', content = Some ''v1'',
        position = None, user_id = ''A'', timestamp = 1, version = 1 \<rparr>,
      \<lparr> operation_type = ''modify'', path = ''f'', content = Some ''v2'',
        position = None, user_id = ''B'', timestamp = 2, version = - 1 \<rparr>]"

definition insert_heap_unset :: heap where
  "insert_heap_unset =
     [\<lparr> operation_type = ''insert'', path = ''f'', content = Some ''X'',
        position = None, user_id = ''A'', timestamp = 1, version = 1 \<rparr>,
      \<lparr> operation_type = ''insert'', path = ''f'', content = Some ''Y'',
        position = Some 10, user_id = ''B'', timestamp = 2, version = - 1 \<rparr>]"

definition connected_state :: SyncManager where
  "connected_state =
     init\<lparr>users := [''u1''], subscribers := [''u1'' \<mapsto> []],
          pending_operations := [''u1'' \<mapsto> [0]],
          ops := [\<lparr> operation_type = ''modify'', path = ''f'', content = Some ''v1'',
                    position = None, user_id = ''u1'', timestamp = 1, version = - 1 \<rparr>]\<rparr>"

definition insert_heap :: heap where
  "insert_heap =
     [\<lparr> operation_type = ''insert'', path = ''f'', content = Some ''X'',
        position = Some 10, user_id = ''A'', timestamp = 1, version = 1 \<rparr>,
      \<lparr> operation_type = ''insert'', path = ''f'', content = Some ''Y'',
        position = Some 10, user_id = ''B'', timestamp = 2, version = 2 \<rparr>]"

text \<open>The two inserts of \<^verbatim>\<open>test_insert_conflict_resolution\<close> (tests/test_conflict_resolver.py);
  the conflict there is \<^verbatim>\<open>[insert2, insert1]\<close>, that is, the references \<open>[1, 0]\<close>.\<close>

definition test_insert_heap :: heap where
  "test_insert_heap =
     [\<lparr> operation_type = ''insert'', path = ''test/file.py'', content = Some ''first insert'',
        position = Some 10, user_id = ''user1'', timestamp = 1, version = 1 \<rparr>,
      \<lparr> operation_type = ''insert'', path = ''test/file.py'', content = Some ''second insert'',
        position = Some 10, user_id = ''user2'', timestamp = 2, version = 2 \<rparr>]"

definition delete_heap :: heap where
  "delete_heap =
     [\<lparr> operation_type = ''modify'', path = ''f'', content = Some ''v1'',
        position = Some 0, user_id = ''A'', timestamp = 1, version = 1 \<rparr>,
      \<lparr> operation_type = ''delete'', path = ''f'', content = None,
        position = None, user_id = ''B'', timestamp = 2, version = 2 \<rparr>]"

definition failing_env :: env where
  "failing_env = example_env\<lparr>record_operation_error := Some (ExternalError ''database'')\<rparr>"

text \<open>A coordinator with user \<open>u1\<close> connected, one channel subscribed to \<open>f\<close>, and an
  operation of \<open>u1\<close> on \<open>f\<close> in the store that has no version yet.\<close>

definition pushing_state :: SyncManager where
  "pushing_state =
     init\<lparr>users := [''u1''], subscribers := [''u1'' \<mapsto> [], ''f'' \<mapsto> [0]],
          pending_operations := [''u1'' \<mapsto> []],
          channels := [[]],
          ops := [\<lparr> operation_type = ''modify'', path = ''f'', content = Some ''v1'',
                    position = None, user_id = ''u1'', timestamp = 1, version = - 1 \<rparr>]\<rparr>"


definition op_v1 :: SyncOperation where
  "op_v1 = \<lparr> operation_type = ''modify'', path = ''f'', content = Some ''v1'',
             position = None, user_id = ''A'', timestamp = 1, version = - 1 \<rparr>"

definition op_v2 :: SyncOperation where
  "op_v2 = \<lparr> operation_type = ''modify'', path = ''g'', content = Some ''v2'',
             position = None, user_id = ''B'', timestamp = 2, version = - 1 \<rparr>"

text \<open>Two users connect and each pushes one operation; the apply loop runs while both
  pushes wait for the storage collaborator, and once more on an empty queue at the end.\<close>

definition two_pushers :: "(env \<times> action) list" where
  "two_pushers =
     [(example_env, Connect ''A''), (example_env, Connect ''B''),
      (example_env, Push op_v1), (example_env, Push op_v2),
      (example_env, Apply), (example_env, Resume (AwaitRecordOperation 0)),
      (example_env, Apply), (example_env, Resume (AwaitRecordOperation 1)),
      (example_env, Apply)]"

text \<open>A coordinator in which user \<open>A\<close>'s modify of \<open>f\<close> has been applied and is in the
  window of \<open>f\<close>, and user \<open>B\<close>'s delete of \<open>f\<close> is in the store, about to be pushed.\<close>

definition conflict_state :: SyncManager where
  "conflict_state =
     init\<lparr>users := [''A'', ''B''],
          subscribers := [''A'' \<mapsto> [], ''B'' \<mapsto> []],
          pending_operations := [''A'' \<mapsto> [0], ''B'' \<mapsto> []],
          recent_operations := [''f'' \<mapsto> [0]],
          state_version := 1,
          ops := delete_heap\<rparr>"

text \<open>The same with user \<open>B\<close>'s modify of \<open>f\<close> in the store, about to be pushed.\<close>

definition modify_conflict_state :: SyncManager where
  "modify_conflict_state =
     init\<lparr>users := [''A'', ''B''],
          subscribers := [''A'' \<mapsto> [], ''B'' \<mapsto> []],
          pending_operations := [''A'' \<mapsto> [0], ''B'' \<mapsto> []],
          recent_operations := [''f'' \<mapsto> [0]],
          state_version := 1,
          ops := modify_heap\<rparr>"

section \<open>Conflict detection: properties\<close>

lemma collect_conflicts_Inr:
  "collect_conflicts h operation recent = Inr cs \<Longrightarrow>
   cs = filter (\<lambda>r. operations_conflict (h ! operation) (h ! r) = Inr True) recent"
  by (induction recent arbitrary: cs) (auto split: sum.splits if_splits)

lemma collect_conflicts_total:
  "\<forall>r \<in> set recent. \<exists>b. operations_conflict (h ! operation) (h ! r) = Inr b \<Longrightarrow>
   \<exists>cs. collect_conflicts h operation recent = Inr cs"
  by (induction recent) (auto split: sum.splits)

lemma collect_conflicts_raises:
  "r \<in> set recent \<Longrightarrow> operations_conflict (h ! operation) (h ! r) = Inl e \<Longrightarrow>
   \<exists>e'. collect_conflicts h operation recent = Inl e'"
  by (induction recent) (auto split: sum.splits)

lemma operations_conflict_modify_total:
  "operation_type op1 = ''modify'' \<Longrightarrow> \<exists>b. operations_conflict op1 op2 = Inr b"
  by (auto simp add: operations_conflict_def)

lemma operations_conflict_modify_modify:
  "operation_type op1 = ''modify'' \<Longrightarrow> operation_type op2 = ''modify'' \<Longrightarrow>
   path op1 = path op2 \<Longrightarrow> user_id op1 \<noteq> user_id op2 \<Longrightarrow>
   operations_conflict op1 op2 = Inr True"
  by (simp add: operations_conflict_def modifications_overlap_def)

text \<open>
  C1. For a new operation and any operation \<open>r\<close> of the recent window handed to
  \<^verbatim>\<open>check_conflict\<close>: if both are of kind modify, target the same path and come from
  different users, \<^verbatim>\<open>check_conflict\<close> returns a conflict, and both operations are among the
  conflict's operations. (The overlap test of two modifies is the one taken from the spec.)
\<close>

theorem modify_modify_conflict_detected:
  assumes "r \<in> set recent"
    and "operation_type (h ! operation) = ''modify''"
    and "operation_type (h ! r) = ''modify''"
    and "path (h ! operation) = path (h ! r)"
    and "user_id (h ! operation) \<noteq> user_id (h ! r)"
  shows "\<exists>c rs'. check_conflict ev h rs operation recent = (Some c, rs')
           \<and> operation \<in> set (operations c) \<and> r \<in> set (operations c)"
proof -
  from assms(2) obtain cs where cs: "collect_conflicts h operation recent = Inr cs"
    using collect_conflicts_total operations_conflict_modify_total by blast
  have "operations_conflict (h ! operation) (h ! r) = Inr True"
    using assms by (simp add: operations_conflict_modify_modify)
  with cs assms(1) have "r \<in> set cs"
    by (auto dest: collect_conflicts_Inr)
  then have "cs \<noteq> []" by auto
  with cs \<open>r \<in> set cs\<close> show ?thesis
    by (simp add: check_conflict_def check_conflict_try_def Let_def)
qed

text \<open>The scenario of the spec: user A's modify of \<open>f\<close> is in the window when user B's
  modify of \<open>f\<close> arrives.\<close>

theorem modify_modify_conflict_detected_witness:
  "\<exists>c rs'. check_conflict example_env modify_heap empty_resolver 1 [0] = (Some c, rs')
           \<and> 1 \<in> set (operations c) \<and> 0 \<in> set (operations c)"
  using modify_modify_conflict_detected [of 0 "[0]" modify_heap 1 example_env empty_resolver]
  by (simp add: modify_heap_def)

text \<open>
  C10. \<^verbatim>\<open>check_conflict\<close> returns a value on every input (it is a total function into
  \<open>Conflict option\<close>: no exception leaves it), and whenever a pairwise test against some
  operation of the window raises, the body of its \<^verbatim>\<open>try\<close> block raises and the value
  returned is \<^verbatim>\<open>None\<close>, as for "no conflict": the error is recorded in the resolver's
  metrics and the conflict table is left as it was.
\<close>

theorem check_conflict_never_raises:
  assumes "r \<in> set recent"
    and "operations_conflict (h ! operation) (h ! r) = Inl e"
  shows "\<exists>e'. check_conflict_try ev h rs operation recent = Inl e'
           \<and> check_conflict ev h rs operation recent =
               (None, rs\<lparr>resolver_metrics :=
                           resolver_metrics rs @ [MetricError ''conflict_check_error'' e']\<rparr>)"
proof -
  from assms obtain e' where "collect_conflicts h operation recent = Inl e'"
    using collect_conflicts_raises by blast
  then have "check_conflict_try ev h rs operation recent = Inl e'
           \<and> check_conflict ev h rs operation recent =
               (None, rs\<lparr>resolver_metrics :=
                           resolver_metrics rs @ [MetricError ''conflict_check_error'' e']\<rparr>)"
    by (simp add: check_conflict_def check_conflict_try_def record_error_def)
  then show ?thesis by blast
qed

text \<open>Two inserts by different users on one path, the one in the window without a
  position: the distance of the positions cannot be computed.\<close>

theorem check_conflict_never_raises_witness:
  "operations_conflict (insert_heap_unset ! 1) (insert_heap_unset ! 0) = Inl TypeError
   \<and> (\<exists>e'. check_conflict_try example_env insert_heap_unset empty_resolver 1 [0] = Inl e'
           \<and> check_conflict example_env insert_heap_unset empty_resolver 1 [0] =
               (None, \<lparr>conflicts = Map.empty,
                       resolver_metrics = [MetricError ''conflict_check_error'' e']\<rparr>))"
proof -
  have raises: "operations_conflict (insert_heap_unset ! 1) (insert_heap_unset ! 0) = Inl TypeError"
    by (simp add: insert_heap_unset_def operations_conflict_def)
  show ?thesis
    using raises check_conflict_never_raises [of 0 "[0]" insert_heap_unset 1 TypeError example_env
          empty_resolver]
    by (simp add: empty_resolver_def)
qed

section \<open>Resolution strategies: properties\<close>

lemma nth_update_any:
  "(h[r := x]) ! i = (if i = r \<and> r < length h then x else h ! i)"
  by (cases "r < length h") (simp_all add: nth_list_update list_update_beyond)

lemma adjust_positions_frame:
  "adjust_positions rs cur m h = (res, h') \<Longrightarrow>
   length h' = length h \<and> (\<forall>i. (h' ! i)\<lparr>position := None\<rparr> = (h ! i)\<lparr>position := None\<rparr>)"
proof (induction rs cur m h arbitrary: res h' rule: adjust_positions.induct)
  case (1 cur m h)
  then show ?case by simp
next
  case (2 r rest cur m h)
  show ?case
  proof (cases "position (h ! r)")
    case None
    with 2 show ?thesis by simp
  next
    case (Some p)
    define h1 where "h1 = (if p \<le> cur then h[r := (h ! r)\<lparr>position := Some (cur + 1)\<rparr>] else h)"
    have h1: "length h1 = length h \<and> (\<forall>i. (h1 ! i)\<lparr>position := None\<rparr> = (h ! i)\<lparr>position := None\<rparr>)"
      by (simp add: h1_def nth_update_any)
    show ?thesis
    proof (cases "content (h1 ! r)")
      case None
      with 2(2) Some h1 show ?thesis by (simp add: h1_def Let_def split: if_splits)
    next
      case (Some c)
      note c = this
      define p1 where "p1 = (if p \<le> cur then cur + 1 else p)"
      from 2(2) \<open>position (h ! r) = Some p\<close> c
      have run: "adjust_positions rest (p1 + int (length c)) (m @ c) h1 = (res, h')"
        by (simp add: h1_def p1_def Let_def split: if_splits)
      have "length h' = length h1 \<and> (\<forall>i. (h' ! i)\<lparr>position := None\<rparr> = (h1 ! i)\<lparr>position := None\<rparr>)"
        using 2(1) [OF \<open>position (h ! r) = Some p\<close> h1_def p1_def c run] .
      with h1 show ?thesis by simp
    qed
  qed
qed


lemma resolve_insert_conflict_frame:
  assumes "resolve_insert_conflict ev rl h mlog = (res, h', mlog')"
  shows "length h \<le> length h'
         \<and> (\<forall>i < length h. (h' ! i)\<lparr>position := None\<rparr> = (h ! i)\<lparr>position := None\<rparr>)
         \<and> (\<forall>r. res = Some r \<longrightarrow> r = length h \<and> length h' = Suc (length h))"
proof (cases "rl = [] \<or> list_ex (\<lambda>r. position (h ! r) = None) rl")
  case True
  with assms show ?thesis
    by (auto simp: resolve_insert_conflict_def split: if_splits)
next
  case False
  define sorted_ops where "sorted_ops = sort_key (position_key h) rl"
  obtain out h1 where run:
    "adjust_positions sorted_ops (position_key h (hd sorted_ops)) [] h = (out, h1)"
    by (cases "adjust_positions sorted_ops (position_key h (hd sorted_ops)) [] h")
  from adjust_positions_frame [OF run]
  have fr: "length h1 = length h"
    "\<And>i. (h1 ! i)\<lparr>position := None\<rparr> = (h ! i)\<lparr>position := None\<rparr>"
    by simp_all
  show ?thesis
  proof (cases out)
    case (Inl e)
    with assms False run fr show ?thesis
      by (auto simp: resolve_insert_conflict_def sorted_ops_def Let_def)
  next
    case (Inr merged)
    with assms False run fr show ?thesis
      by (auto simp: resolve_insert_conflict_def sorted_ops_def Let_def alloc_def nth_append)
  qed
qed

lemma resolve_modify_conflict_frame:
  assumes "resolve_modify_conflict ev rl h mlog = (res, h', mlog')"
  shows "take (length h) h' = h
         \<and> (\<forall>r. res = Some r \<longrightarrow> r = length h \<and> length h' = Suc (length h))"
  using assms
  by (auto simp: resolve_modify_conflict_def alloc_def Let_def
           split: list.splits option.splits if_splits)

lemma resolve_delete_conflict_input:
  "resolve_delete_conflict rl h = Inr r \<Longrightarrow> r \<in> set rl \<and> operation_type (h ! r) = ''delete''"
proof -
  assume a: "resolve_delete_conflict rl h = Inr r"
  then obtain rest where "filter (\<lambda>r. operation_type (h ! r) = ''delete'') rl = r # rest"
    by (auto simp: resolve_delete_conflict_def split: list.splits)
  then have "r \<in> set (filter (\<lambda>r. operation_type (h ! r) = ''delete'') rl)" by simp
  then show ?thesis by simp
qed


lemma adjust_positions_content:
  "\<forall>r \<in> set rs. position (h ! r) \<noteq> None \<and> content (h ! r) \<noteq> None \<Longrightarrow>
   \<exists>h'. adjust_positions rs cur m h =
          (Inr (m @ concat (map (\<lambda>r. the (content (h ! r))) rs)), h')"
proof (induction rs arbitrary: cur m h)
  case Nil
  then show ?case by simp
next
  case (Cons r rest)
  from Cons.prems obtain p c where p: "position (h ! r) = Some p" and c: "content (h ! r) = Some c"
    by auto
  define h1 where "h1 = (if p \<le> cur then h[r := (h ! r)\<lparr>position := Some (cur + 1)\<rparr>] else h)"
  define p1 where "p1 = (if p \<le> cur then cur + 1 else p)"
  have same: "\<And>i. content (h1 ! i) = content (h ! i)"
    by (simp add: h1_def nth_update_any)
  have pos: "\<And>i. position (h ! i) \<noteq> None \<Longrightarrow> position (h1 ! i) \<noteq> None"
    by (simp add: h1_def nth_update_any)
  have "\<forall>r \<in> set rest. position (h1 ! r) \<noteq> None \<and> content (h1 ! r) \<noteq> None"
    using Cons.prems same pos by simp
  from Cons.IH [OF this, of "p1 + int (length c)" "m @ c"]
  obtain h' where "adjust_positions rest (p1 + int (length c)) (m @ c) h1 =
       (Inr ((m @ c) @ concat (map (\<lambda>r. the (content (h1 ! r))) rest)), h')"
    by blast
  then have "adjust_positions (r # rest) cur m h =
       (Inr (m @ concat (map (\<lambda>r. the (content (h ! r))) (r # rest))), h')"
    using p c same by (simp add: h1_def p1_def Let_def)
  then show ?case by blast
qed

lemma adjust_positions_untouched:
  "i \<notin> set rs \<Longrightarrow> adjust_positions rs cur m h = (res, h') \<Longrightarrow> h' ! i = h ! i"
proof (induction rs cur m h arbitrary: res h' rule: adjust_positions.induct)
  case (1 cur m h)
  then show ?case by simp
next
  case (2 r rest cur m h)
  show ?case
  proof (cases "position (h ! r)")
    case None
    with 2 show ?thesis by simp
  next
    case (Some p)
    define h1 where "h1 = (if p \<le> cur then h[r := (h ! r)\<lparr>position := Some (cur + 1)\<rparr>] else h)"
    define p1 where "p1 = (if p \<le> cur then cur + 1 else p)"
    from 2(2) have h1: "h1 ! i = h ! i" by (simp add: h1_def nth_update_any)
    show ?thesis
    proof (cases "content (h1 ! r)")
      case None
      with 2(3) Some h1 show ?thesis by (simp add: h1_def Let_def split: if_splits)
    next
      case c: (Some c)
      from 2(3) \<open>position (h ! r) = Some p\<close> c
      have run: "adjust_positions rest (p1 + int (length c)) (m @ c) h1 = (res, h')"
        by (simp add: h1_def p1_def Let_def split: if_splits)
      from 2(2) have "i \<notin> set rest" by simp
      from 2(1) [OF \<open>position (h ! r) = Some p\<close> h1_def p1_def c this run] h1
      show ?thesis by simp
    qed
  qed
qed

lemma adjust_positions_first:
  assumes "position (h ! r) = Some p" "p \<le> cur" "r < length h" "r \<notin> set rest"
    and "adjust_positions (r # rest) cur m h = (res, h')"
    and "content (h ! r) \<noteq> None"
  shows "position (h' ! r) = Some (cur + 1)"
proof -
  define h1 where "h1 = h[r := (h ! r)\<lparr>position := Some (cur + 1)\<rparr>]"
  from assms obtain c where c: "content (h ! r) = Some c" by auto
  have c1: "content (h1 ! r) = Some c" using c assms(3) by (simp add: h1_def)
  from assms(5) assms(1,2) c1
  have "adjust_positions rest (cur + 1 + int (length c)) (m @ c) h1 = (res, h')"
    by (simp add: h1_def Let_def)
  from adjust_positions_untouched [OF assms(4) this]
  show ?thesis using assms(3) by (simp add: h1_def)
qed


text \<open>What the insert strategy returns on a conflict of distinct operations that all have
  a position and a content: a new operation of kind insert by \<open>system\<close> whose content is the
  concatenation of the contents in ascending order of position (ties in the order of the
  conflict), and whose position is the lowest position plus one, since the first operation
  is compared with a cursor that starts at its own position.\<close>

lemma resolve_insert_conflict_result:
  assumes ne: "rl \<noteq> []" and d: "distinct rl"
    and ok: "\<forall>r \<in> set rl. r < length h \<and> position (h ! r) \<noteq> None \<and> content (h ! r) \<noteq> None"
  shows "\<exists>h'. resolve_insert_conflict ev rl h mlog = (Some (length h), h', mlog)
           \<and> h' ! length h =
               \<lparr> operation_type = ''insert'', path = path (h ! hd rl),
                 content = Some (concat (map (\<lambda>r. the (content (h ! r)))
                                          (sort_key (position_key h) rl))),
                 position = Some (position_key h (hd (sort_key (position_key h) rl)) + 1),
                 user_id = ''system'', timestamp = now ev, version = - 1 \<rparr>"
proof -
  define sorted_ops where "sorted_ops = sort_key (position_key h) rl"
  have set_sorted: "set sorted_ops = set rl" and dist: "distinct sorted_ops"
    using d by (simp_all add: sorted_ops_def)
  from ne set_sorted obtain s0 srest where s: "sorted_ops = s0 # srest"
    by (cases sorted_ops) auto
  from ok set_sorted have ok': "\<forall>r \<in> set sorted_ops. position (h ! r) \<noteq> None \<and> content (h ! r) \<noteq> None"
    by simp
  from adjust_positions_content [OF ok', of "position_key h (hd sorted_ops)" "[]"]
  obtain h1 where run: "adjust_positions sorted_ops (position_key h (hd sorted_ops)) [] h =
      (Inr (concat (map (\<lambda>r. the (content (h ! r))) sorted_ops)), h1)"
    by auto
  from adjust_positions_frame [OF run]
  have len: "length h1 = length h"
    and fr: "\<And>i. (h1 ! i)\<lparr>position := None\<rparr> = (h ! i)\<lparr>position := None\<rparr>"
    by simp_all
  have "path ((h1 ! hd rl)\<lparr>position := None\<rparr>) = path ((h ! hd rl)\<lparr>position := None\<rparr>)"
    by (simp only: fr)
  then have pth: "path (h1 ! hd rl) = path (h ! hd rl)" by simp
  from s set_sorted ok have s0: "s0 < length h" "content (h ! s0) \<noteq> None" by auto
  from s set_sorted ok obtain p0 where p0: "position (h ! s0) = Some p0" by auto
  then have key: "position_key h s0 = p0" by (simp add: position_key_def)
  from dist s have "s0 \<notin> set srest" by simp
  from adjust_positions_first [OF p0 _ s0(1) this _ s0(2), of p0 "[]"] run s key
  have first: "position (h1 ! s0) = Some (p0 + 1)" by simp
  have nolist: "\<not> list_ex (\<lambda>r. position (h ! r) = None) rl"
    using ok by (simp add: list_ex_iff)
  show ?thesis
    using ne nolist run first pth len s key
    by (simp add: resolve_insert_conflict_def sorted_ops_def [symmetric] alloc_def Let_def nth_append)
qed

text \<open>
  C6 on the input of the repository's own test \<^verbatim>\<open>test_insert_conflict_resolution\<close>: two
  inserts at position 10. The strategy returns a new insert by \<open>system\<close> with the
  concatenated content, but at position 11, not at the lowest input position 10 (which the
  test asserts); it also leaves the inputs at positions 25 and 11.
\<close>

theorem resolve_insert_conflict_test_input:
  "resolve_insert_conflict example_env [1, 0] test_insert_heap [] =
     (Some 2,
      [(test_insert_heap ! 0)\<lparr>position := Some 25\<rparr>,
       (test_insert_heap ! 1)\<lparr>position := Some 11\<rparr>,
       \<lparr> operation_type = ''insert'', path = ''test/file.py'',
         content = Some ''second insertfirst insert'', position = Some 11,
         user_id = ''system'', timestamp = 100, version = - 1 \<rparr>],
      [])"
  by (simp add: resolve_insert_conflict_def test_insert_heap_def position_key_def
        example_env_def alloc_def Let_def)

text \<open>
  C7, as the code has it. The modify strategy leaves every operation of the store as it
  was, and a resolution it returns is a newly allocated operation. The delete strategy
  returns one of the operations it was given, a delete, and writes nothing. The insert
  strategy leaves the kind, path, content, user, timestamp and version of every operation as
  they were (the position it may overwrite), and a resolution it returns is a newly
  allocated operation.
\<close>

theorem strategies_frame:
  "(resolve_modify_conflict ev rl h mlog = (res, h', mlog') \<longrightarrow>
      take (length h) h' = h \<and> (\<forall>r. res = Some r \<longrightarrow> r = length h))
   \<and> (resolve_delete_conflict rl h = Inr d \<longrightarrow>
        d \<in> set rl \<and> operation_type (h ! d) = ''delete'')
   \<and> (resolve_insert_conflict ev rl h mlog = (res, h', mlog') \<longrightarrow>
        length h \<le> length h'
        \<and> (\<forall>i < length h. (h' ! i)\<lparr>position := None\<rparr> = (h ! i)\<lparr>position := None\<rparr>)
        \<and> (\<forall>r. res = Some r \<longrightarrow> r = length h))"
  using resolve_modify_conflict_frame [of ev rl h mlog res h' mlog']
    resolve_delete_conflict_input [of rl h d]
    resolve_insert_conflict_frame [of ev rl h mlog res h' mlog']
  by blast

theorem strategies_frame_witness:
  "resolve_modify_conflict example_env [1, 0] modify_heap [] =
     (Some 2,
      modify_heap @ [\<lparr> operation_type = ''modify'', path = ''f'', content = Some ''v2'',
                       position = None, user_id = ''system'', timestamp = 100,
                       version = - 1 \<rparr>],
      [])
   \<and> resolve_delete_conflict [1, 0] delete_heap = Inr 1
   \<and> operation_type (delete_heap ! 1) = ''delete''
   \<and> resolve_insert_conflict example_env [0, 1] insert_heap [] =
       (Some 2,
        [(insert_heap ! 0)\<lparr>position := Some 11\<rparr>, (insert_heap ! 1)\<lparr>position := Some 13\<rparr>,
         \<lparr> operation_type = ''insert'', path = ''f'', content = Some ''XY'',
           position = Some 11, user_id = ''system'', timestamp = 100, version = - 1 \<rparr>],
        [])
   \<and> ([(insert_heap ! 0)\<lparr>position := Some 11\<rparr>, (insert_heap ! 1)\<lparr>position := Some 13\<rparr>,
         \<lparr> operation_type = ''insert'', path = ''f'', content = Some ''XY'',
           position = Some 11, user_id = ''system'', timestamp = 100, version = - 1 \<rparr>] ! 1)
         \<lparr>position := None\<rparr> = (insert_heap ! 1)\<lparr>position := None\<rparr>"
proof -
  let ?hm = "modify_heap @ [\<lparr> operation_type = ''modify'', path = ''f'', content = Some ''v2'',
                       position = None, user_id = ''system'', timestamp = 100,
                       version = - 1 \<rparr>]"
  let ?hi = "[(insert_heap ! 0)\<lparr>position := Some 11\<rparr>, (insert_heap ! 1)\<lparr>position := Some 13\<rparr>,
         \<lparr> operation_type = ''insert'', path = ''f'', content = Some ''XY'',
           position = Some 11, user_id = ''system'', timestamp = 100, version = - 1 \<rparr>]"
  have m: "resolve_modify_conflict example_env [1, 0] modify_heap [] = (Some 2, ?hm, [])"
    by (simp add: resolve_modify_conflict_def merge_changes_def keep_lines_def modify_heap_def
          example_env_def alloc_def Let_def)
  have d: "resolve_delete_conflict [1, 0] delete_heap = Inr 1"
    by (simp add: resolve_delete_conflict_def delete_heap_def)
  have i: "resolve_insert_conflict example_env [0, 1] insert_heap [] = (Some 2, ?hi, [])"
    by (simp add: resolve_insert_conflict_def insert_heap_def position_key_def
          example_env_def alloc_def Let_def)
  have len: "(1::nat) < length insert_heap" by (simp add: insert_heap_def)
  from strategies_frame [of example_env "[1, 0]" modify_heap "[]" "Some 2" ?hm "[]" 1] m
  have "take (length modify_heap) ?hm = modify_heap" by blast
  moreover
  from strategies_frame [of example_env "[1, 0]" delete_heap "[]" None "[]" "[]" 1] d
  have "operation_type (delete_heap ! 1) = ''delete''" by blast
  moreover
  from strategies_frame [of example_env "[0, 1]" insert_heap "[]" "Some 2" ?hi "[]" 0] i len
  have "(?hi ! 1)\<lparr>position := None\<rparr> = (insert_heap ! 1)\<lparr>position := None\<rparr>" by blast
  ultimately show ?thesis using m d i by simp
qed

text \<open>C7 as stated fails: resolving the conflict of two inserts at position 10 overwrites
  the position of the first input operation, which is 11 afterwards.\<close>

theorem strategies_mutate_counterexample:
  "position (insert_heap ! 0) = Some 10
   \<and> position (fst (snd (resolve_insert_conflict example_env [0, 1] insert_heap [])) ! 0)
       = Some 11"
  by (simp add: resolve_insert_conflict_def insert_heap_def position_key_def
        example_env_def alloc_def Let_def)

section \<open>Locks, connections and subscriptions: properties\<close>

lemma locked_files_broadcast_lock_event:
  "locked_files (broadcast_lock_event ev t p u st) = locked_files st"
  by (simp add: broadcast_lock_event_def split: option.splits)

text \<open>
  C5. \<^verbatim>\<open>acquire_lock\<close> returns true exactly when the path has no holder, and then records
  the caller as the holder; otherwise it changes nothing, so a second acquire by the holder
  fails. \<^verbatim>\<open>release_lock\<close> returns true exactly when the caller is the holder, and then
  removes the entry; otherwise it changes nothing. The table maps a path to at most one
  holder, an acquire never replaces one, and after a successful release another user's
  acquire succeeds.
\<close>

theorem lock_table_exclusive:
  "(fst (acquire_lock ev p u st) \<longleftrightarrow> locked_files st p = None)
   \<and> (locked_files st p = None \<longrightarrow>
        locked_files (snd (acquire_lock ev p u st)) = (locked_files st)(p \<mapsto> u))
   \<and> (locked_files st p \<noteq> None \<longrightarrow> snd (acquire_lock ev p u st) = st)
   \<and> (locked_files st p = None \<longrightarrow>
        \<not> fst (acquire_lock ev' p u (snd (acquire_lock ev p u st))))
   \<and> (fst (release_lock ev p u st) \<longleftrightarrow> locked_files st p = Some u)
   \<and> (locked_files st p = Some u \<longrightarrow>
        locked_files (snd (release_lock ev p u st)) = (locked_files st)(p := None))
   \<and> (locked_files st p \<noteq> Some u \<longrightarrow> snd (release_lock ev p u st) = st)
   \<and> (locked_files st p = Some u \<longrightarrow>
        fst (acquire_lock ev' p u' (snd (release_lock ev p u st))))"
  by (simp add: acquire_lock_def release_lock_def locked_files_broadcast_lock_event)

theorem lock_table_exclusive_witness:
  "locked_files init ''f'' = None
   \<and> fst (acquire_lock example_env ''f'' ''u1'' init)
   \<and> locked_files (snd (acquire_lock example_env ''f'' ''u1'' init)) ''f'' = Some ''u1''
   \<and> \<not> fst (acquire_lock example_env ''f'' ''u1'' (snd (acquire_lock example_env ''f'' ''u1'' init)))
   \<and> fst (release_lock example_env ''f'' ''u1'' (snd (acquire_lock example_env ''f'' ''u1'' init)))
   \<and> fst (acquire_lock example_env ''f'' ''u2''
            (snd (release_lock example_env ''f'' ''u1'' (snd (acquire_lock example_env ''f'' ''u1'' init)))))"
proof -
  have free: "locked_files init ''f'' = None" by (simp add: init_def)
  note a = lock_table_exclusive [of example_env "''f''" "''u1''" init example_env "''u2''"]
  let ?st1 = "snd (acquire_lock example_env ''f'' ''u1'' init)"
  have held: "locked_files ?st1 ''f'' = Some ''u1''" using a free by simp
  note b = lock_table_exclusive [of example_env "''f''" "''u1''" ?st1 example_env "''u2''"]
  show ?thesis using free a held b by simp
qed

text \<open>
  C8, as the code has it. \<^verbatim>\<open>connect_user\<close> has no check for a user that is already
  connected and never fails: after the call the user is registered, and the user's
  pending-operations list and subscriber set are empty, whatever they held before; the
  entries of all other users are as they were. For a user who was already connected the
  registry is unchanged; otherwise the user is added to it.
\<close>

theorem connect_user_resets:
  "user \<in> set (users (connect_user ev user st))
   \<and> pending_operations (connect_user ev user st) = (pending_operations st)(user \<mapsto> [])
   \<and> subscribers (connect_user ev user st) = (subscribers st)(user \<mapsto> [])
   \<and> (user \<in> set (users st) \<longrightarrow> users (connect_user ev user st) = users st)
   \<and> (user \<notin> set (users st) \<longrightarrow> users (connect_user ev user st) = users st @ [user])"
  by (simp add: connect_user_def broadcast_user_event_def)

theorem connect_user_resets_witness:
  "''u1'' \<in> set (users connected_state)
   \<and> users (connect_user example_env ''u1'' connected_state) = users connected_state
   \<and> pending_operations (connect_user example_env ''u1'' connected_state) ''u1'' = Some []"
  using connect_user_resets [of "''u1''" example_env connected_state]
  by (simp add: connected_state_def init_def)

text \<open>C8 as stated fails: connecting the already connected user \<open>u1\<close>, who has one pending
  operation, returns normally and empties the pending list.\<close>

theorem connect_user_counterexample:
  "''u1'' \<in> set (users connected_state)
   \<and> pending_operations connected_state ''u1'' = Some [0]
   \<and> pending_operations (connect_user example_env ''u1'' connected_state) ''u1'' = Some []"
  by (simp add: connect_user_def broadcast_user_event_def connected_state_def init_def)

lemma unsubscribe_present:
  "subscribers st p = Some qs \<Longrightarrow> queue \<in> set qs \<Longrightarrow>
   unsubscribe p queue st =
     (Inr (), st\<lparr>subscribers := (subscribers st)(p \<mapsto> removeAll queue qs)\<rparr>)"
  by (simp add: unsubscribe_def)

lemma unsubscribe_no_path:
  "subscribers st p = None \<Longrightarrow> unsubscribe p queue st = (Inr (), st)"
  by (simp add: unsubscribe_def)

text \<open>
  C9 at a channel that is not subscribed: after one subscription to \<open>f\<close> (channel 0),
  unsubscribing channel 1 from \<open>f\<close> raises \<^verbatim>\<open>KeyError\<close> instead of returning normally. (The
  other two cases of the claim hold: \<open>unsubscribe_present\<close>, \<open>unsubscribe_no_path\<close>.)
\<close>

theorem unsubscribe_absent_channel:
  "unsubscribe ''f'' 1 (snd (subscribe ''u1'' ''f'' init)) =
     (Inl KeyError, snd (subscribe ''u1'' ''f'' init))"
  by (simp add: unsubscribe_def subscribe_def init_def)

section \<open>Pushing an operation: properties\<close>

lemma enqueue_operation_Inr:
  "enqueue_operation r st = (Inr u, st1) \<Longrightarrow>
   operation_queue st1 = operation_queue st @ [r]
   \<and> ops st1 = ops st \<and> state_version st1 = state_version st
   \<and> (\<exists>pending. pending_operations st (user_id (ops st ! r)) = Some pending
         \<and> pending_operations st1 =
             (pending_operations st)(user_id (ops st ! r) \<mapsto> pending @ [r]))"
  by (auto simp: enqueue_operation_def Let_def split: option.splits)

lemma enqueue_operation_version:
  "enqueue_operation r st = (x, st1) \<Longrightarrow>
   state_version st1 = state_version st \<and> metrics st1 = metrics st"
  by (auto simp: enqueue_operation_def Let_def split: option.splits)

lemma push_operation_begin_try_enqueued:
  assumes "push_operation_begin_try ev operation st = (Inr (AwaitRecordOperation r), st1)"
  shows "operation_queue st1 = operation_queue st @ [r]
         \<and> (\<exists>pending. pending_operations st (user_id (ops st1 ! r)) = Some pending
               \<and> pending_operations st1 =
                   (pending_operations st)(user_id (ops st1 ! r) \<mapsto> pending @ [r]))"
  using assms
  by (auto simp: push_operation_begin_try_def broadcast_conflict_begin_def Let_def
         split: if_splits prod.splits option.splits sum.splits list.splits
         dest!: enqueue_operation_Inr)

lemma push_operation_begin_try_version:
  "push_operation_begin_try ev operation st = (x, st1) \<Longrightarrow>
   state_version st1 = state_version st \<and> metrics st1 = metrics st"
  by (auto simp: push_operation_begin_try_def broadcast_conflict_begin_def Let_def
         split: if_splits prod.splits option.splits sum.splits list.splits
         dest!: enqueue_operation_version)

lemma push_operation_begin_version:
  "state_version (snd (push_operation_begin ev operation st)) = state_version st"
proof -
  obtain x st1 where b: "push_operation_begin_try ev operation st = (x, st1)"
    by (cases "push_operation_begin_try ev operation st")
  from push_operation_begin_try_version [OF b] b show ?thesis
    by (simp add: push_operation_begin_def split: sum.splits)
qed

lemma push_operation_resume_version:
  "state_version (snd (push_operation_resume ev sp st)) = state_version st"
  by (simp add: push_operation_resume_def broadcast_conflict_resume_def
        split: suspended.splits option.splits sum.splits list.splits prod.splits)

text \<open>
  C3, as the code has it. Whenever \<^verbatim>\<open>push_operation\<close> reaches the \<^verbatim>\<open>record_operation\<close>
  call, the operation it passes on (the pushed one, or the resolution of its conflict) has
  already been put at the end of the apply queue and appended to its user's pending list.
  When the call then fails, in whatever state the coordinator is by then, the push ends
  with the collaborator's exception, which is recorded in the metrics and raised again to
  the caller, and nothing else changes: the failure takes the operation neither off the
  apply queue nor off the pending list.
\<close>

theorem push_operation_record_failure:
  "(push_operation_begin ev operation st = (Suspended (AwaitRecordOperation r), st1) \<longrightarrow>
      operation_queue st1 = operation_queue st @ [r]
      \<and> (\<exists>pending. pending_operations st (user_id (ops st1 ! r)) = Some pending
            \<and> pending_operations st1 =
                (pending_operations st)(user_id (ops st1 ! r) \<mapsto> pending @ [r])))
   \<and> (record_operation_error ev' = Some e \<longrightarrow>
        push_operation_resume ev' (AwaitRecordOperation r) st2 =
          (Raised e, st2\<lparr>metrics := metrics st2 @ [MetricError ''sync_operation_error'' e]\<rparr>))"
proof -
  have a: "push_operation_begin ev operation st = (Suspended (AwaitRecordOperation r), st1) \<Longrightarrow>
      push_operation_begin_try ev operation st = (Inr (AwaitRecordOperation r), st1)"
    by (auto simp: push_operation_begin_def split: prod.splits sum.splits)
  have b: "record_operation_error ev' = Some e \<Longrightarrow>
        push_operation_resume ev' (AwaitRecordOperation r) st2 =
          (Raised e, st2\<lparr>metrics := metrics st2 @ [MetricError ''sync_operation_error'' e]\<rparr>)"
    by (simp add: push_operation_resume_def record_error_def)
  from a b push_operation_begin_try_enqueued [of ev operation st r st1] show ?thesis
    by blast
qed

lemma pushing_state_begin:
  "push_operation_begin failing_env 0 pushing_state =
     (Suspended (AwaitRecordOperation 0),
      pushing_state\<lparr>operation_queue := [0],
                     pending_operations := (pending_operations pushing_state)(''u1'' \<mapsto> [0])\<rparr>)"
  by (simp add: push_operation_begin_def push_operation_begin_try_def enqueue_operation_def
        validate_operation_def can_modify_file_def
        check_conflict_def check_conflict_try_def pushing_state_def init_def
        failing_env_def example_env_def)

lemma conflict_state_begin:
  "fst (push_operation_begin failing_env 1 conflict_state) = Suspended (AwaitRecordOperation 1)"
  by (simp add: push_operation_begin_def push_operation_begin_try_def enqueue_operation_def
        validate_operation_def can_modify_file_def operations_conflict_def
        check_conflict_def check_conflict_try_def conflict_state_def init_def delete_heap_def
        resolve_conflict_def resolve_delete_conflict_def store_last_def
        failing_env_def example_env_def Let_def)


text \<open>A conflict-free push and a push whose conflict the delete strategy resolves both
  reach \<^verbatim>\<open>record_operation\<close> with the operation enqueued; in the first, the apply loop
  runs while the call is pending, and the failure that follows leaves the operation, by
  then applied, on the pending list.\<close>

theorem push_operation_record_failure_witness:
  "push_operation_begin failing_env 0 pushing_state =
     (Suspended (AwaitRecordOperation 0),
      pushing_state\<lparr>operation_queue := [0],
                     pending_operations := (pending_operations pushing_state)(''u1'' \<mapsto> [0])\<rparr>)
   \<and> fst (push_operation_begin failing_env 1 conflict_state) = Suspended (AwaitRecordOperation 1)
   \<and> operation_queue (snd (push_operation_begin failing_env 1 conflict_state)) = [1]
   \<and> record_operation_error failing_env = Some (ExternalError ''database'')
   \<and> fst (push_operation_resume failing_env (AwaitRecordOperation 0)
             (step example_env Apply (snd (push_operation_begin failing_env 0 pushing_state))))
       = Raised (ExternalError ''database'')
   \<and> pending_operations
         (snd (push_operation_resume failing_env (AwaitRecordOperation 0)
                (step example_env Apply (snd (push_operation_begin failing_env 0 pushing_state)))))
         ''u1'' = Some [0]"
proof -
  let ?st1 = "snd (push_operation_begin failing_env 0 pushing_state)"
  let ?st2 = "step example_env Apply ?st1"
  let ?c1 = "snd (push_operation_begin failing_env 1 conflict_state)"
  have e: "record_operation_error failing_env = Some (ExternalError ''database'')"
    by (simp add: failing_env_def)
  have p2: "pending_operations ?st2 ''u1'' = Some [0]"
    by (simp add: pushing_state_begin process_step_def process_one_def assign_version_def
          process_publish_def broadcast_operation_def update_recent_operations_def
          apply_operation_def Let_def split: option.splits)
  have cq: "operation_queue conflict_state = []" by (simp add: conflict_state_def init_def)
  have cb: "push_operation_begin failing_env 1 conflict_state = (Suspended (AwaitRecordOperation 1), ?c1)"
    using conflict_state_begin by (metis prod.collapse)
  from push_operation_record_failure
         [of failing_env 1 conflict_state 1 ?c1 failing_env "ExternalError ''database''" ?st2] cb cq
  have q: "operation_queue ?c1 = [1]" by simp
  from push_operation_record_failure
         [of failing_env 0 pushing_state 0 ?st1 failing_env "ExternalError ''database''" ?st2] e
  have r: "push_operation_resume failing_env (AwaitRecordOperation 0) ?st2 =
      (Raised (ExternalError ''database''),
       ?st2\<lparr>metrics := metrics ?st2 @ [MetricError ''sync_operation_error'' (ExternalError ''database'')]\<rparr>)"
    by blast
  show ?thesis using pushing_state_begin conflict_state_begin q e r p2 by simp
qed

text \<open>C3 as stated fails: the storage collaborator fails on a valid, conflict-free push;
  the push raises, and the operation is on the apply queue and on the user's pending
  list.\<close>

theorem push_operation_counterexample:
  "fst (push_operation failing_env 0 pushing_state) = Raised (ExternalError ''database'')
   \<and> 0 \<in> set (operation_queue (snd (push_operation failing_env 0 pushing_state)))
   \<and> pending_operations (snd (push_operation failing_env 0 pushing_state)) ''u1'' = Some [0]"
  by (simp add: push_operation_def pushing_state_begin)
     (simp add: push_operation_resume_def failing_env_def record_error_def)

text \<open>A push whose conflict the modify strategy resolves does not reach
  \<^verbatim>\<open>record_operation\<close> here: the resolution is an operation of \<open>system\<close>, which has no
  pending list, so the push ends with \<^verbatim>\<open>KeyError\<close>, after the resolution has been put on the
  apply queue.\<close>

lemma push_system_resolution:
  "fst (push_operation_begin example_env 1 modify_conflict_state) = Raised KeyError
   \<and> operation_queue (snd (push_operation_begin example_env 1 modify_conflict_state)) = [2]
   \<and> user_id (ops (snd (push_operation_begin example_env 1 modify_conflict_state)) ! 2) = ''system''"
  by (simp add: push_operation_begin_def push_operation_begin_try_def enqueue_operation_def
        validate_operation_def can_modify_file_def operations_conflict_def
        modifications_overlap_def
        check_conflict_def check_conflict_try_def modify_conflict_state_def init_def
        modify_heap_def resolve_conflict_def resolve_modify_conflict_def merge_changes_def
        keep_lines_def alloc_def store_last_def record_error_def
        example_env_def Let_def)

section \<open>The apply loop: properties\<close>

lemma length_put: "length (put m q chs) = length chs"
  by (simp add: put_def)

lemma length_put_all: "length (put_all qs m chs) = length chs"
  unfolding put_all_def by (induction qs arbitrary: chs) (simp_all add: length_put)



lemma process_publish_fields:
  "ops (process_publish r st) = ops st \<and> state_version (process_publish r st) = state_version st
   \<and> subscribers (process_publish r st) = subscribers st
   \<and> operation_queue (process_publish r st) = operation_queue st"
  by (simp add: process_publish_def broadcast_operation_def update_recent_operations_def
        apply_operation_def Let_def split: option.splits)


lemma process_one_fields:
  "channels (process_one r st) = channels (process_publish r st)
   \<and> state_version (process_one r st) = state_version st + 1
   \<and> operation_queue (process_one r st) = operation_queue st"
  by (simp add: process_one_def assign_version_def Let_def process_publish_fields)

lemma process_one_version:
  "r < length (ops st) \<Longrightarrow> version (ops (process_one r st) ! r) = state_version st + 1"
  by (simp add: process_one_def assign_version_def Let_def process_publish_fields)




lemma step_version:
  "state_version (step ev a st) =
     (if a = Apply \<and> operation_queue st \<noteq> [] then state_version st + 1 else state_version st)"
proof (cases a)
  case (Connect u)
  then show ?thesis by (simp add: connect_user_def broadcast_user_event_def)
next
  case (Subscribe u p)
  then show ?thesis by (simp add: subscribe_def Let_def)
next
  case (Unsubscribe p q)
  then show ?thesis by (simp add: unsubscribe_def split: option.splits)
next
  case (AcquireLock p u)
  then show ?thesis
    by (simp add: acquire_lock_def broadcast_lock_event_def split: option.splits)
next
  case (ReleaseLock p u)
  then show ?thesis
    by (simp add: release_lock_def broadcast_lock_event_def split: option.splits)
next
  case (Push x)
  then show ?thesis by (simp add: alloc_def push_operation_begin_version)
next
  case (Resume sp)
  then show ?thesis by (simp add: push_operation_resume_version)
next
  case Apply
  then show ?thesis
    by (simp add: process_step_def process_one_fields split: list.splits)
qed

lemma assigned_versions_nth:
  "i < length (assigned_versions acts st) \<Longrightarrow>
   assigned_versions acts st ! i = state_version st + 1 + int i"
proof (induction acts arbitrary: st i)
  case Nil
  then show ?case by simp
next
  case (Cons x rest)
  obtain ev a where x: "x = (ev, a)" by (cases x)
  let ?st = "step ev a st"
  show ?case
  proof (cases "a = Apply \<and> operation_queue st \<noteq> []")
    case True
    then have v: "state_version ?st = state_version st + 1" by (subst step_version) simp
    have l: "assigned_versions (x # rest) st = state_version ?st # assigned_versions rest ?st"
      using True x by simp
    show ?thesis
    proof (cases i)
      case 0
      with l v show ?thesis by simp
    next
      case (Suc j)
      with Cons.prems l have "j < length (assigned_versions rest ?st)" by simp
      from Cons.IH [OF this] l v Suc show ?thesis by simp
    qed
  next
    case False
    then have v: "state_version ?st = state_version st" by (subst step_version) simp
    have l: "assigned_versions (x # rest) st = assigned_versions rest ?st"
      using False x by auto
    with Cons.prems have "i < length (assigned_versions rest ?st)" by simp
    from Cons.IH [OF this] l v show ?thesis by simp
  qed
qed

lemma run_version:
  "state_version (run acts st) = state_version st + int (length (assigned_versions acts st))"
proof (induction acts arbitrary: st)
  case Nil
  then show ?case by simp
next
  case (Cons x rest)
  obtain ev a where x: "x = (ev, a)" by (cases x)
  have v: "state_version (step ev a st) =
     (if a = Apply \<and> operation_queue st \<noteq> [] then state_version st + 1 else state_version st)"
    by (rule step_version)
  from Cons.IH [of "step ev a st"] v x show ?case by auto
qed

lemma assigned_versions_consecutive:
  "assigned_versions acts st =
     map (\<lambda>i. state_version st + int i) [1..<Suc (length (assigned_versions acts st))]"
  by (rule nth_equalityI) (simp_all add: assigned_versions_nth del: upt_Suc)

text \<open>
  C2. The version counter starts at 0. Along every sequence of calls by any number of
  clients interleaved with iterations of the apply loop, the versions that the loop assigns
  are 1, 2, ..., n in this order (no gap, no duplicate, no decrement), and the counter ends
  at n. An iteration that applies an operation increments the counter by exactly 1 and
  writes the new value into the operation; no other step changes the counter.
\<close>

theorem versions_consecutive:
  "state_version init = 0
   \<and> assigned_versions acts init = map int [1..<Suc (length (assigned_versions acts init))]
   \<and> state_version (run acts init) = int (length (assigned_versions acts init))
   \<and> state_version (step ev a st) =
       (if a = Apply \<and> operation_queue st \<noteq> [] then state_version st + 1 else state_version st)
   \<and> (process_step st = Some (r, st') \<and> r < length (ops st) \<longrightarrow>
        version (ops st' ! r) = state_version st + 1 \<and> state_version st' = state_version st + 1)"
proof -
  have z: "state_version init = 0" by (simp add: init_def)
  from assigned_versions_consecutive [of acts init] z
  have l: "assigned_versions acts init = map int [1..<Suc (length (assigned_versions acts init))]"
    by simp
  have p: "process_step st = Some (r, st') \<and> r < length (ops st) \<longrightarrow>
        version (ops st' ! r) = state_version st + 1 \<and> state_version st' = state_version st + 1"
    by (auto simp: process_step_def process_one_version process_one_fields split: list.splits)
  from z l p run_version [of acts init] step_version [of ev a st] show ?thesis by simp
qed

theorem versions_consecutive_witness:
  "assigned_versions two_pushers init = [1, 2]
   \<and> state_version (run two_pushers init) = 2
   \<and> process_step (pushing_state\<lparr>operation_queue := [0]\<rparr>)
       = Some (0, process_one 0 (pushing_state\<lparr>operation_queue := []\<rparr>))
   \<and> version (ops (process_one 0 (pushing_state\<lparr>operation_queue := []\<rparr>)) ! 0) = 1"
proof -
  have n: "length (assigned_versions two_pushers init) = 2"
    by (simp add: two_pushers_def init_def example_env_def op_v1_def op_v2_def
     connect_user_def broadcast_user_event_def put_users_def alloc_def
     push_operation_begin_def push_operation_begin_try_def push_operation_resume_def
     enqueue_operation_def validate_operation_def can_modify_file_def
     check_conflict_def check_conflict_try_def process_step_def process_one_def
     assign_version_def process_publish_def broadcast_operation_def
     update_recent_operations_def apply_operation_def record_metric_def Let_def)
  have s: "process_step (pushing_state\<lparr>operation_queue := [0]\<rparr>)
       = Some (0, process_one 0 (pushing_state\<lparr>operation_queue := []\<rparr>))"
    by (simp add: process_step_def)
  have v: "0 < length (ops (pushing_state\<lparr>operation_queue := [0]\<rparr>))"
    "state_version (pushing_state\<lparr>operation_queue := [0]\<rparr>) = 0"
    by (simp_all add: pushing_state_def init_def)
  have u: "[1..<Suc 2] = [1, 2]" by (simp add: upt_conv_Cons)
  from versions_consecutive [of two_pushers example_env Apply
          "pushing_state\<lparr>operation_queue := [0]\<rparr>" 0
          "process_one 0 (pushing_state\<lparr>operation_queue := []\<rparr>)"] n s v u
  show ?thesis by simp
qed

end
